theory Spec2Isabelle
  imports Main
begin

section \<open>The host toolkit as seen from \<^verbatim>\<open>events.cpp\<close>\<close>

text \<open>
  \<^verbatim>\<open>src/uitk/events.cpp\<close> holds two event filters, \<^verbatim>\<open>EventFactoryFilter\<close> and
  \<^verbatim>\<open>MouseTracking\<close>. Both only ask the toolkit questions (hit test, class membership,
  button state) and call its primitives. The model keeps the two sides apart:
  \<^item> a \<open>toolkit\<close> record answers every question the code asks while one event is handled;
  \<^item> every call that acts on a widget, and every hit test, is appended to a trace
    (\<open>calls\<close>), in the order the code makes it;
  \<^item> the members of the filter object are fields of the state and are updated as the
    code assigns them.
  The answers are fixed while one event is handled and may differ from one event to
  the next. \<^verbatim>\<open>qDebug\<close> output is not modelled. A pointer that may be null is an
  \<open>option\<close>. A call through a null pointer is the error \<open>NullPointer\<close>: the
  call is not made and no later statement runs; the state returned with the error is
  the state at that point.
\<close>

type_synonym qobject = nat
type_synonym widget = nat
type_synonym point = "int \<times> int"

text \<open>The values of \<^verbatim>\<open>QEvent::Type\<close> the code names, as the toolkit numbers them.\<close>

definition MouseButtonRelease :: int where "MouseButtonRelease = 3"
definition MouseMove :: int where "MouseMove = 5"
definition Enter :: int where "Enter = 10"
definition Leave :: int where "Leave = 11"

definition NoModifier :: nat where "NoModifier = 0"

text \<open>
  An event is a plain \<^verbatim>\<open>QEvent\<close> or a \<^verbatim>\<open>QMouseEvent\<close>; both carry the type and the
  accept flag, which the toolkit's constructors set. \<^verbatim>\<open>button()\<close> is read through a
  \<^verbatim>\<open>static_cast\<close>; on a plain event the model reads \<^verbatim>\<open>Qt::NoButton\<close> (0).
\<close>

datatype qevent =
    QEvent (etype: int) (accepted: bool)
  | QMouseEvent (etype: int) (localPos: point) (button: nat) (buttons: nat)
      (modifiers: nat) (accepted: bool)
where
  "button (QEvent t a) = 0"
| "buttons (QEvent t a) = 0"
| "modifiers (QEvent t a) = 0"
| "localPos (QEvent t a) = (0, 0)"

fun ignore :: "qevent \<Rightarrow> qevent" where
  "ignore (QEvent t a) = QEvent t False"
| "ignore (QMouseEvent t p b bs m a) = QMouseEvent t p b bs m False"

record toolkit =
  cursor_pos :: point                            \<comment> \<open>\<^verbatim>\<open>QCursor::pos()\<close>\<close>
  widgetAt :: "point \<Rightarrow> widget option"            \<comment> \<open>\<^verbatim>\<open>QApplication::widgetAt\<close>\<close>
  activeWindow :: "widget option"                \<comment> \<open>\<^verbatim>\<open>QApplication::activeWindow()\<close>\<close>
  findChildren :: "widget \<Rightarrow> widget list"         \<comment> \<open>\<^verbatim>\<open>findChildren<QWidget*>()\<close>\<close>
  inherits :: "qobject \<Rightarrow> string \<Rightarrow> bool"         \<comment> \<open>\<^verbatim>\<open>QObject::inherits\<close>\<close>
  isDown :: "widget \<Rightarrow> bool"                      \<comment> \<open>\<^verbatim>\<open>QAbstractButton::isDown\<close>\<close>
  viewVisible :: "widget \<Rightarrow> bool"                 \<comment> \<open>\<^verbatim>\<open>QComboBox::view()->isVisible()\<close>\<close>
  isSliderDown :: "widget \<Rightarrow> bool"                \<comment> \<open>\<^verbatim>\<open>QAbstractSlider::isSliderDown\<close>\<close>
  slotSignatures :: "qobject \<Rightarrow> string list"      \<comment> \<open>the slots of \<^verbatim>\<open>metaObject()\<close>\<close>
  normalizedSignature :: "string \<Rightarrow> string"       \<comment> \<open>\<^verbatim>\<open>QMetaObject::normalizedSignature\<close>\<close>

text \<open>
  \<^verbatim>\<open>qobject_cast<T*>(o)\<close> is null unless the object inherits \<^verbatim>\<open>T\<close>.
\<close>

definition qobject_cast :: "toolkit \<Rightarrow> string \<Rightarrow> qobject \<Rightarrow> qobject option" where
  "qobject_cast tk cls obj = (if inherits tk obj cls then Some obj else None)"

text \<open>
  The base implementation \<^verbatim>\<open>QObject::eventFilter\<close> of the toolkit: it filters nothing.
\<close>

definition QObject_eventFilter :: "qobject \<Rightarrow> qevent \<Rightarrow> bool" where
  "QObject_eventFilter obj event = False"

datatype call =
    InstallEventFilter widget
  | WidgetAt point
  | ReleaseMouse widget
  | SendEvent widget qevent
  | PostEvent widget qevent
  | GrabMouse widget
  | InvokeMethod qobject string "widget option" qevent

section \<open>\<^verbatim>\<open>EventFactoryFilter\<close>\<close>

subsection \<open>The regular expression of \<^verbatim>\<open>formatEventName\<close>\<close>

text \<open>
  \<^verbatim>\<open>std::regex_match\<close> with the pattern
  \<^verbatim>\<open>^.*\.([A-Z])([^B]*)(?:Button)?(.*)$\<close> (ECMAScript grammar), written out as the
  backtracking search it is: the whole input has to match, every star is greedy and
  gives characters back one at a time, \<^verbatim>\<open>.\<close> matches every character but a line
  terminator, and the optional group is tried before it is skipped. The result holds the
  three capture groups.
\<close>

definition is_line_terminator :: "char \<Rightarrow> bool" where
  "is_line_terminator c = (c = CHR 0x0A \<or> c = CHR 0x0D)"

definition is_upper :: "char \<Rightarrow> bool" where
  "is_upper c = (65 \<le> (of_char c :: nat) \<and> (of_char c :: nat) \<le> 90)"

definition dot_star :: "string \<Rightarrow> bool" where
  "dot_star s = list_all (\<lambda>c. \<not> is_line_terminator c) s"

text \<open>\<^verbatim>\<open>(?:Button)?(.*)$\<close> on what is left of the input; the result is group 3.\<close>

definition match_rest :: "string \<Rightarrow> string option" where
  "match_rest r =
     (if take 6 r = ''Button'' \<and> dot_star (drop 6 r) then Some (drop 6 r)
      else if dot_star r then Some r
      else None)"

text \<open>
  \<^verbatim>\<open>([^B]*)\<close> followed by the rest: group 2 takes \<open>k\<close> characters, then one fewer, down
  to none. The first call passes the length of the longest run without \<^verbatim>\<open>B\<close>.
\<close>

fun match_group2 :: "string \<Rightarrow> nat \<Rightarrow> (string \<times> string) option" where
  "match_group2 r 0 = (case match_rest r of Some g3 \<Rightarrow> Some ([], g3) | None \<Rightarrow> None)"
| "match_group2 r (Suc k) =
     (case match_rest (drop (Suc k) r) of
        Some g3 \<Rightarrow> Some (take (Suc k) r, g3)
      | None \<Rightarrow> match_group2 r k)"

text \<open>The leading \<^verbatim>\<open>.*\<close> takes \<open>i\<close> characters; then \<^verbatim>\<open>\.\<close>, then \<^verbatim>\<open>([A-Z])\<close>.\<close>

definition match_at :: "string \<Rightarrow> nat \<Rightarrow> (string \<times> string \<times> string) option" where
  "match_at s i =
     (if dot_star (take i s) then
        (case drop i s of
           d # c # r \<Rightarrow>
             if d = CHR ''.'' \<and> is_upper c then
               (case match_group2 r (length (takeWhile (\<lambda>x. x \<noteq> CHR ''B'') r)) of
                  Some (g2, g3) \<Rightarrow> Some ([c], g2, g3)
                | None \<Rightarrow> None)
             else None
         | _ \<Rightarrow> None)
      else None)"

fun match_from :: "string \<Rightarrow> nat \<Rightarrow> (string \<times> string \<times> string) option" where
  "match_from s 0 = match_at s 0"
| "match_from s (Suc i) =
     (case match_at s (Suc i) of Some m \<Rightarrow> Some m | None \<Rightarrow> match_from s i)"

definition regex_match :: "string \<Rightarrow> (string \<times> string \<times> string) option" where
  "regex_match s = match_from s (length s)"

subsection \<open>\<^verbatim>\<open>QString\<close> helpers\<close>

definition digit_char :: "nat \<Rightarrow> char" where
  "digit_char d = char_of (48 + d)"

fun number_nat :: "nat \<Rightarrow> string" where
  "number_nat n =
     (if n < 10 then [digit_char n] else number_nat (n div 10) @ [digit_char (n mod 10)])"

declare number_nat.simps [simp del]

text \<open>\<^verbatim>\<open>QString::number(int)\<close>: the decimal rendering, with a sign when negative.\<close>

definition QString_number :: "int \<Rightarrow> string" where
  "QString_number n =
     (if n < 0 then CHR ''-'' # number_nat (nat (- n)) else number_nat (nat n))"

definition toLower :: "string \<Rightarrow> string" where
  "toLower s = map (\<lambda>c. if is_upper c then char_of (of_char c + (32 :: nat)) else c) s"

subsection \<open>The filter\<close>

record event_factory_filter =
  forwardEventsTo :: qobject
  eventNamePrefix :: string

text \<open>The constructor; \<open>this\<close> is the new object, the default target of the events.\<close>

definition EventFactoryFilter ::
  "qobject \<Rightarrow> qobject option \<Rightarrow> string \<Rightarrow> event_factory_filter" where
  "EventFactoryFilter this forwardTo prefix =
     \<lparr>forwardEventsTo = (case forwardTo of Some target \<Rightarrow> target | None \<Rightarrow> this),
      eventNamePrefix = prefix\<rparr>"

text \<open>
  The source spells the third group \<^verbatim>\<open>matches[3].str.c_str()\<close>; it is read as
  \<^verbatim>\<open>matches[3].str().c_str()\<close>, like the other two.
\<close>

definition formatEventName :: "int \<Rightarrow> string \<Rightarrow> string" where
  "formatEventName eventType prefix =
     (case regex_match (QString_number eventType) of
        Some (m1, m2, m3) \<Rightarrow> prefix @ toLower m1 @ m2 @ m3 @ ''Event''
      | None \<Rightarrow> prefix @ ''event'')"

text \<open>
  \<^verbatim>\<open>QMetaObject::indexOfSlot\<close>: the position of the signature among the slots of the
  object, and -1 when it has no such slot.
\<close>

fun index_from :: "int \<Rightarrow> string \<Rightarrow> string list \<Rightarrow> int" where
  "index_from i sig [] = - 1"
| "index_from i sig (s # rest) = (if s = sig then i else index_from (i + 1) sig rest)"

definition indexOfSlot :: "toolkit \<Rightarrow> qobject \<Rightarrow> string \<Rightarrow> int" where
  "indexOfSlot tk obj sig = index_from 0 sig (slotSignatures tk obj)"

text \<open>The result is the return value and the calls made.\<close>

definition EventFactoryFilter_eventFilter ::
  "toolkit \<Rightarrow> event_factory_filter \<Rightarrow> qobject \<Rightarrow> qevent \<Rightarrow> bool \<times> call list" where
  "EventFactoryFilter_eventFilter tk self obj event =
     (let methodName = formatEventName (etype event) (eventNamePrefix self)
      in if indexOfSlot tk (forwardEventsTo self)
              (normalizedSignature tk (methodName @ ''(QWidget*, QEvent*)'')) \<ge> 0
         then (True, [InvokeMethod (forwardEventsTo self) methodName
                        (qobject_cast tk ''QWidget'' obj) event])
         else (False, []))"

section \<open>\<^verbatim>\<open>MouseTracking\<close>\<close>

text \<open>
  The members of \<^verbatim>\<open>MouseTracking\<close> (with the \<^verbatim>\<open>QObject\<close> parent), then what the code
  reaches outside itself: the \<^verbatim>\<open>mouseMoveEvent\<close> handler slot of every widget, which
  \<^verbatim>\<open>handleViewportWidget\<close> assigns, and the trace of toolkit calls.
\<close>

record mouse_tracking =
  parent :: widget
  prevMouseOver :: "widget list"
  mouseOver :: "widget list"
  filteredWidgets :: "widget set"
  widgets :: "widget list"

record world = mouse_tracking +
  mouseMoveEvent :: "widget \<Rightarrow> qevent \<Rightarrow> qevent"
  calls :: "call list"

definition emit :: "call \<Rightarrow> world \<Rightarrow> world" where
  "emit c w = w\<lparr>calls := calls w @ [c]\<rparr>"

datatype error = Fatal string | NullPointer

text \<open>
  The constructor. \<^verbatim>\<open>qFatal\<close> ends the program; the log level is only printed. The
  handlers the widgets have at that moment are an argument.
\<close>

definition MouseTracking ::
  "toolkit \<Rightarrow> widget \<Rightarrow> (widget \<Rightarrow> qevent \<Rightarrow> qevent) \<Rightarrow> error + world" where
  "MouseTracking tk parentWidget handlers =
     (if \<not> inherits tk parentWidget ''QWidget''
      then Inl (Fatal ''Parent must be a QWidget derived type'')
      else Inr \<lparr>parent = parentWidget, prevMouseOver = [], mouseOver = [],
                filteredWidgets = {}, widgets = [],
                mouseMoveEvent = handlers,
                calls = [InstallEventFilter parentWidget]\<rparr>)"

subsection \<open>\<^verbatim>\<open>shouldCaptureMouse\<close>\<close>

definition widgetConditions :: "(string \<times> (toolkit \<Rightarrow> widget \<Rightarrow> bool)) list" where
  "widgetConditions =
     [(''QPushButton'', \<lambda>tk w. \<not> isDown tk w),
      (''QComboBox'', \<lambda>tk w. \<not> viewVisible tk w),
      (''QSlider'', \<lambda>tk w. \<not> isSliderDown tk w),
      (''QScrollBar'', \<lambda>tk w. \<not> isSliderDown tk w)]"

fun shouldCaptureMouse_loop ::
  "toolkit \<Rightarrow> widget \<Rightarrow> (string \<times> (toolkit \<Rightarrow> widget \<Rightarrow> bool)) list \<Rightarrow> bool" where
  "shouldCaptureMouse_loop tk widget [] = True"
| "shouldCaptureMouse_loop tk widget ((widgetType, condition) # rest) =
     (if inherits tk widget widgetType \<and> condition tk widget then False
      else shouldCaptureMouse_loop tk widget rest)"

definition shouldCaptureMouse :: "toolkit \<Rightarrow> widget \<Rightarrow> bool" where
  "shouldCaptureMouse tk widget = shouldCaptureMouse_loop tk widget widgetConditions"

subsection \<open>Hit test\<close>

definition getChildWidgets :: "toolkit \<Rightarrow> world \<Rightarrow> world" where
  "getChildWidgets tk w = w\<lparr>widgets := findChildren tk (parent w)\<rparr>"

definition updateWidgetsUnderCursor :: "toolkit \<Rightarrow> world \<Rightarrow> world" where
  "updateWidgetsUnderCursor tk w =
     (let w1 = getChildWidgets tk w;
          w2 = emit (WidgetAt (cursor_pos tk)) w1
      in case widgetAt tk (cursor_pos tk) of
           None \<Rightarrow> w2\<lparr>mouseOver := []\<rparr>
         | Some topWidget \<Rightarrow>
             if topWidget \<in> set (widgets w2) then w2\<lparr>mouseOver := [topWidget]\<rparr>
             else w2\<lparr>mouseOver := []\<rparr>)"

subsection \<open>Synthetic events and grabs\<close>

fun releaseMouseForWidgets :: "widget list \<Rightarrow> world \<Rightarrow> world" where
  "releaseMouseForWidgets [] w = w"
| "releaseMouseForWidgets (widget # rest) w =
     releaseMouseForWidgets rest (emit (ReleaseMouse widget) w)"

definition sendLeaveEvent :: "widget \<Rightarrow> world \<Rightarrow> world" where
  "sendLeaveEvent widget w = emit (SendEvent widget (QEvent Leave True)) w"

definition sendEnterEvent :: "widget \<Rightarrow> world \<Rightarrow> world" where
  "sendEnterEvent widget w = emit (SendEvent widget (QEvent Enter True)) w"

definition sendReleaseEvent :: "toolkit \<Rightarrow> widget \<Rightarrow> nat \<Rightarrow> world \<Rightarrow> world" where
  "sendReleaseEvent tk widget btn w =
     emit (PostEvent widget
            (QMouseEvent MouseButtonRelease (cursor_pos tk) btn btn NoModifier True)) w"

text \<open>
  \<^verbatim>\<open>receiver->grabMouse()\<close>. The receiver is the pointer the code has at hand; the
  code tests \<^verbatim>\<open>topWidget\<close> but not what \<^verbatim>\<open>QApplication::activeWindow()\<close> returns.
\<close>

definition grabMouse :: "widget option \<Rightarrow> world \<Rightarrow> (error + unit) \<times> world" where
  "grabMouse receiver w =
     (case receiver of
        None \<Rightarrow> (Inl NullPointer, w)
      | Some widget \<Rightarrow> (Inr (), emit (GrabMouse widget) w))"

definition handleMouseGrab :: "toolkit \<Rightarrow> world \<Rightarrow> (error + unit) \<times> world" where
  "handleMouseGrab tk w =
     (let w1 = emit (WidgetAt (cursor_pos tk)) w
      in case widgetAt tk (cursor_pos tk) of
           Some topWidget \<Rightarrow>
             (let widgetToGrab =
                    (if shouldCaptureMouse tk topWidget then Some topWidget
                     else activeWindow tk)
              in grabMouse widgetToGrab w1)
         | None \<Rightarrow> grabMouse (activeWindow tk) w1)"

subsection \<open>Scroll areas\<close>

text \<open>
  \<^verbatim>\<open>handleViewportWidget\<close> reads the \<^verbatim>\<open>mouseMoveEvent\<close> handler of the widget and
  assigns the widget a new one, which calls the handler read and then
  \<^verbatim>\<open>event->ignore()\<close>. A handler is a function from the event it receives to the event
  it leaves behind.
\<close>

definition handleViewportWidget :: "widget option \<Rightarrow> world \<Rightarrow> world" where
  "handleViewportWidget widget w =
     (case widget of
        None \<Rightarrow> w
      | Some a \<Rightarrow>
          (let originalMouseMoveEvent = mouseMoveEvent w a
           in w\<lparr>mouseMoveEvent :=
                 (mouseMoveEvent w)(a := \<lambda>event. ignore (originalMouseMoveEvent event))\<rparr>))"

fun filterViewportWidgets_loop :: "toolkit \<Rightarrow> widget list \<Rightarrow> world \<Rightarrow> world" where
  "filterViewportWidgets_loop tk [] w = w"
| "filterViewportWidgets_loop tk (widget # rest) w =
     filterViewportWidgets_loop tk rest
       (if inherits tk widget ''QAbstractScrollArea'' \<and> widget \<notin> filteredWidgets w
        then handleViewportWidget (qobject_cast tk ''QAbstractScrollArea'' widget)
               (w\<lparr>filteredWidgets := insert widget (filteredWidgets w)\<rparr>)
        else w)"

definition filterViewportWidgets :: "toolkit \<Rightarrow> world \<Rightarrow> world" where
  "filterViewportWidgets tk w = filterViewportWidgets_loop tk (widgets w) w"

subsection \<open>\<^verbatim>\<open>track\<close> and \<^verbatim>\<open>eventFilter\<close>\<close>

fun track_leave_loop :: "widget list \<Rightarrow> world \<Rightarrow> world" where
  "track_leave_loop [] w = w"
| "track_leave_loop (widget # rest) w =
     track_leave_loop rest
       (if widget \<notin> set (mouseOver w) then sendLeaveEvent widget w else w)"

fun track_enter_loop :: "widget list \<Rightarrow> world \<Rightarrow> world" where
  "track_enter_loop [] w = w"
| "track_enter_loop (widget # rest) w =
     track_enter_loop rest
       (if widget \<notin> set (prevMouseOver w) then sendEnterEvent widget w else w)"

definition track :: "toolkit \<Rightarrow> world \<Rightarrow> (error + unit) \<times> world" where
  "track tk w =
     (let w1 = releaseMouseForWidgets (mouseOver w) w;
          w2 = updateWidgetsUnderCursor tk w1;
          w3 = track_leave_loop (prevMouseOver w2) w2;
          w4 = track_enter_loop (mouseOver w3) w3
      in case handleMouseGrab tk w4 of
           (Inl e, w5) \<Rightarrow> (Inl e, w5)
         | (Inr u, w5) \<Rightarrow>
             (let w6 = w5\<lparr>prevMouseOver := mouseOver w5\<rparr>
              in (Inr (), filterViewportWidgets tk w6)))"

text \<open>
  The result is what the filter returns, or the error that ended the run, and the
  state reached.
\<close>

definition MouseTracking_eventFilter ::
  "toolkit \<Rightarrow> qobject \<Rightarrow> qevent \<Rightarrow> world \<Rightarrow> (error + bool) \<times> world" where
  "MouseTracking_eventFilter tk obj event w =
     (if etype event = MouseMove then
        (case track tk w of
           (Inl e, w') \<Rightarrow> (Inl e, w')
         | (Inr u, w') \<Rightarrow> (Inr (QObject_eventFilter obj event), w'))
      else if etype event = MouseButtonRelease then
        (let w1 = emit (WidgetAt (cursor_pos tk)) w
         in case widgetAt tk (cursor_pos tk) of
              None \<Rightarrow> (Inr (QObject_eventFilter obj event), w1)
            | Some topWidget \<Rightarrow>
                if qobject_cast tk ''QAbstractButton'' topWidget \<noteq> None
                   \<and> \<not> isDown tk topWidget
                then (Inr (QObject_eventFilter obj event),
                      sendReleaseEvent tk topWidget (button event) w1)
                else (Inr (QObject_eventFilter obj event), w1))
      else (Inr (QObject_eventFilter obj event), w))"

section \<open>Reading the trace\<close>

text \<open>The calls made between state \<open>w\<close> and the later state \<open>w'\<close>.\<close>

definition new_calls :: "world \<Rightarrow> world \<Rightarrow> call list" where
  "new_calls w w' = drop (length (calls w)) (calls w')"

fun is_SendEvent :: "call \<Rightarrow> bool" where
  "is_SendEvent (SendEvent x e) = True"
| "is_SendEvent c = False"

fun is_PostEvent :: "call \<Rightarrow> bool" where
  "is_PostEvent (PostEvent x e) = True"
| "is_PostEvent c = False"

fun is_GrabMouse :: "call \<Rightarrow> bool" where
  "is_GrabMouse (GrabMouse x) = True"
| "is_GrabMouse c = False"

text \<open>
  The primitives a mouse-tracking filter may call while it handles an event:
  \<^verbatim>\<open>widgetAt\<close>, \<^verbatim>\<open>sendEvent\<close>, \<^verbatim>\<open>postEvent\<close>, \<^verbatim>\<open>grabMouse\<close>, \<^verbatim>\<open>releaseMouse\<close>,
  \<^verbatim>\<open>installEventFilter\<close>.
\<close>

fun is_toolkit_primitive :: "call \<Rightarrow> bool" where
  "is_toolkit_primitive (InstallEventFilter x) = True"
| "is_toolkit_primitive (WidgetAt p) = True"
| "is_toolkit_primitive (ReleaseMouse x) = True"
| "is_toolkit_primitive (SendEvent x e) = True"
| "is_toolkit_primitive (PostEvent x e) = True"
| "is_toolkit_primitive (GrabMouse x) = True"
| "is_toolkit_primitive (InvokeMethod target name x e) = False"

definition leave_event :: "widget \<Rightarrow> call" where
  "leave_event x = SendEvent x (QEvent Leave True)"

definition enter_event :: "widget \<Rightarrow> call" where
  "enter_event x = SendEvent x (QEvent Enter True)"

definition release_event :: "toolkit \<Rightarrow> qevent \<Rightarrow> qevent" where
  "release_event tk event =
     QMouseEvent MouseButtonRelease (cursor_pos tk) (button event) (button event) NoModifier True"

subsection \<open>What the properties say, in their own words\<close>

text \<open>
  The widgets under the cursor: the widget the hit test returns when it is one of the
  descendants of the tracked parent, and none otherwise.
\<close>

definition under_cursor :: "toolkit \<Rightarrow> widget \<Rightarrow> widget list" where
  "under_cursor tk p =
     (case widgetAt tk (cursor_pos tk) of
        None \<Rightarrow> []
      | Some t \<Rightarrow> if t \<in> set (findChildren tk p) then [t] else [])"

text \<open>
  A push button that is not pressed, a combo box whose popup view is not visible, a
  slider or a scroll bar whose slider is not dragged: these leave the grab to the
  active window.
\<close>

definition yields_to_active_window :: "toolkit \<Rightarrow> widget \<Rightarrow> bool" where
  "yields_to_active_window tk t =
     ((inherits tk t ''QPushButton'' \<and> \<not> isDown tk t)
      \<or> (inherits tk t ''QComboBox'' \<and> \<not> viewVisible tk t)
      \<or> ((inherits tk t ''QSlider'' \<or> inherits tk t ''QScrollBar'') \<and> \<not> isSliderDown tk t))"

definition grab_target :: "toolkit \<Rightarrow> widget option" where
  "grab_target tk =
     (case widgetAt tk (cursor_pos tk) of
        None \<Rightarrow> activeWindow tk
      | Some t \<Rightarrow> if yields_to_active_window tk t then activeWindow tk else Some t)"

text \<open>
  The widget a release is sent on to: the widget under the cursor when it is a
  \<^verbatim>\<open>QAbstractButton\<close> that is not down.
\<close>

definition release_target :: "toolkit \<Rightarrow> widget option" where
  "release_target tk =
     (case widgetAt tk (cursor_pos tk) of
        None \<Rightarrow> None
      | Some t \<Rightarrow> if inherits tk t ''QAbstractButton'' \<and> \<not> isDown tk t then Some t else None)"

text \<open>The target declares a slot of that name taking \<^verbatim>\<open>(QWidget*, QEvent*)\<close>.\<close>

definition declares_slot :: "toolkit \<Rightarrow> qobject \<Rightarrow> string \<Rightarrow> bool" where
  "declares_slot tk target name =
     (normalizedSignature tk (name @ ''(QWidget*, QEvent*)'') \<in> set (slotSignatures tk target))"

text \<open>A handler wrapped so that the event ends up ignored.\<close>

definition ignoring :: "(qevent \<Rightarrow> qevent) \<Rightarrow> qevent \<Rightarrow> qevent" where
  "ignoring original event = ignore (original event)"

text \<open>A scroll area below the tracked parent that the tracker has not wrapped yet.\<close>

definition unfiltered_scroll_area :: "toolkit \<Rightarrow> world \<Rightarrow> widget \<Rightarrow> bool" where
  "unfiltered_scroll_area tk w a =
     (a \<in> set (findChildren tk (parent w)) \<and> inherits tk a ''QAbstractScrollArea''
      \<and> a \<notin> filteredWidgets w)"

text \<open>
  The calls of one \<^verbatim>\<open>track()\<close>, in order; the last one is missing when the grab has
  no widget to call.
\<close>

definition track_calls :: "toolkit \<Rightarrow> world \<Rightarrow> call list" where
  "track_calls tk w =
     map ReleaseMouse (mouseOver w)
     @ [WidgetAt (cursor_pos tk)]
     @ map leave_event
         (filter (\<lambda>x. x \<notin> set (under_cursor tk (parent w))) (prevMouseOver w))
     @ map enter_event
         (filter (\<lambda>x. x \<notin> set (prevMouseOver w)) (under_cursor tk (parent w)))
     @ [WidgetAt (cursor_pos tk)]
     @ (case grab_target tk of None \<Rightarrow> [] | Some g \<Rightarrow> [GrabMouse g])"

subsection \<open>Running the tracker\<close>

text \<open>
  The toolkit hands the filter one event after the other, each with the answers it
  gives while that event is handled. After an error no further event is handled.
\<close>

fun run :: "(toolkit \<times> qobject \<times> qevent) list \<Rightarrow> world \<Rightarrow> world" where
  "run [] w = w"
| "run ((tk, obj, event) # rest) w =
     (case MouseTracking_eventFilter tk obj event w of
        (Inl e, w') \<Rightarrow> w'
      | (Inr consumed, w') \<Rightarrow> run rest w')"

text \<open>
  The toolkit answers of the latest mouse move among the events handled: a mouse move
  whose grab has no widget to call is the last event handled.
\<close>

fun last_move :: "(toolkit \<times> qobject \<times> qevent) list \<Rightarrow> toolkit option" where
  "last_move [] = None"
| "last_move ((tk, obj, event) # rest) =
     (if etype event = MouseMove \<and> grab_target tk = None then Some tk
      else case last_move rest of
             Some t \<Rightarrow> Some t
           | None \<Rightarrow> if etype event = MouseMove then Some tk else None)"

subsection \<open>A small window\<close>

text \<open>
  Window 5 holds a push button 2, a scroll area 3 and a slider 4; the cursor is over
  the button. Object 7 declares the slot \<^verbatim>\<open>ef_event(QWidget*,QEvent*)\<close>, object 6 none.
\<close>

definition tk_example :: toolkit where
  "tk_example =
     \<lparr>cursor_pos = (10, 10),
      widgetAt = (\<lambda>p. if p = (10, 10) then Some 2 else None),
      activeWindow = Some 5,
      findChildren = (\<lambda>p. if p = 5 then [2, 3, 4] else []),
      inherits = (\<lambda>obj cls. (obj, cls) \<in> set
        [(5, ''QWidget''), (2, ''QWidget''), (3, ''QWidget''), (4, ''QWidget''),
         (2, ''QAbstractButton''), (2, ''QPushButton''),
         (3, ''QAbstractScrollArea''), (4, ''QSlider'')]),
      isDown = (\<lambda>x. False),
      viewVisible = (\<lambda>x. False),
      isSliderDown = (\<lambda>x. False),
      slotSignatures = (\<lambda>obj. if obj = 7 then [''ef_event(QWidget*,QEvent*)''] else []),
      normalizedSignature = filter (\<lambda>c. c \<noteq> CHR '' '')\<rparr>"

text \<open>The same window while the button is held down.\<close>

definition tk_pressed :: toolkit where
  "tk_pressed = tk_example\<lparr>isDown := (\<lambda>x. x = 2)\<rparr>"

text \<open>
  The same window with the cursor over the scroll area, and with the cursor outside
  every widget while the application has no active window.
\<close>

definition tk_scroll :: toolkit where
  "tk_scroll = tk_example\<lparr>widgetAt := (\<lambda>p. if p = (10, 10) then Some 3 else None)\<rparr>"

definition tk_no_window :: toolkit where
  "tk_no_window = tk_example\<lparr>widgetAt := (\<lambda>p. None), activeWindow := None\<rparr>"

definition move_example :: qevent where
  "move_example = QMouseEvent MouseMove (10, 10) 0 0 0 True"

text \<open>
  The tracker right after construction, and after it then handled one mouse move with
  the cursor over the scroll area.
\<close>

definition w_initial :: world where
  "w_initial =
     \<lparr>parent = 5, prevMouseOver = [], mouseOver = [], filteredWidgets = {},
      widgets = [], mouseMoveEvent = (\<lambda>x event. event), calls = [InstallEventFilter 5]\<rparr>"

definition w_example :: world where
  "w_example = snd (MouseTracking_eventFilter tk_scroll 5 move_example w_initial)"

definition release_example :: qevent where
  "release_example = QMouseEvent MouseButtonRelease (10, 10) 2 0 0 True"

definition factory_example :: event_factory_filter where
  "factory_example = EventFactoryFilter 6 (Some 7) ''ef_''"

section \<open>Properties\<close>

subsection \<open>\<^verbatim>\<open>formatEventName\<close> and the forwarding filter\<close>

lemma match_at_needs:
  assumes "match_at s i = Some m"
  shows "CHR ''.'' \<in> set s \<and> (\<exists>c \<in> set s. is_upper c)"
proof -
  from assms obtain c r where d: "drop i s = CHR ''.'' # c # r" and u: "is_upper c"
    by (auto simp add: match_at_def split: if_splits list.splits)
  from d have "CHR ''.'' \<in> set (drop i s)" and "c \<in> set (drop i s)" by simp_all
  then have "CHR ''.'' \<in> set s" and "c \<in> set s" by (auto dest: in_set_dropD)
  with u show ?thesis by blast
qed

lemma match_from_needs:
  "match_from s i = Some m \<Longrightarrow> CHR ''.'' \<in> set s \<and> (\<exists>c \<in> set s. is_upper c)"
proof (induction i)
  case 0
  then show ?case using match_at_needs [of s 0 m] by simp
next
  case (Suc i)
  show ?case
  proof (cases "match_at s (Suc i)")
    case None
    with Suc show ?thesis by simp
  next
    case (Some m')
    then show ?thesis by (rule match_at_needs)
  qed
qed

lemma regex_match_needs:
  "regex_match s = Some m \<Longrightarrow> CHR ''.'' \<in> set s \<and> (\<exists>c \<in> set s. is_upper c)"
  unfolding regex_match_def by (rule match_from_needs)

lemma digit_char_not_dot:
  assumes "d < 10"
  shows "digit_char d \<noteq> CHR ''.''"
proof
  assume e: "digit_char d = CHR ''.''"
  have "(of_char (digit_char d) :: nat) = 48 + d"
    using assms by (simp add: digit_char_def)
  with e show False by simp
qed

lemma number_nat_no_dot: "CHR ''.'' \<notin> set (number_nat n)"
proof (induction n rule: number_nat.induct)
  case (1 n)
  show ?case
  proof (cases "n < 10")
    case True
    then show ?thesis
      using digit_char_not_dot [of n] by (simp add: number_nat.simps [of n])
  next
    case False
    then show ?thesis
      using 1 digit_char_not_dot [of "n mod 10"] by (simp add: number_nat.simps [of n])
  qed
qed

lemma QString_number_no_dot: "CHR ''.'' \<notin> set (QString_number n)"
  by (simp add: QString_number_def number_nat_no_dot)

lemma regex_never_matches: "regex_match (QString_number n) = None"
proof (cases "regex_match (QString_number n)")
  case None
  then show ?thesis .
next
  case (Some m)
  then show ?thesis using regex_match_needs QString_number_no_dot by blast
qed

lemma formatEventName_eq: "formatEventName eventType prefix = prefix @ ''event''"
  by (simp add: formatEventName_def regex_never_matches)

lemma index_from_found: "0 \<le> i \<Longrightarrow> (0 \<le> index_from i sig ss) = (sig \<in> set ss)"
  by (induction ss arbitrary: i) auto

lemma indexOfSlot_found:
  "(0 \<le> indexOfSlot tk obj sig) = (sig \<in> set (slotSignatures tk obj))"
  by (simp add: indexOfSlot_def index_from_found)

lemma EventFactoryFilter_eventFilter_eq:
  "EventFactoryFilter_eventFilter tk self obj event =
     (if declares_slot tk (forwardEventsTo self)
           (formatEventName (etype event) (eventNamePrefix self))
      then (True, [InvokeMethod (forwardEventsTo self)
                     (formatEventName (etype event) (eventNamePrefix self))
                     (qobject_cast tk ''QWidget'' obj) event])
      else (False, []))"
  by (simp add: EventFactoryFilter_eventFilter_def Let_def indexOfSlot_found declares_slot_def)

text \<open>
  C4. A match of the regular expression needs a \<^verbatim>\<open>.\<close> and an uppercase letter in the
  input; the decimal rendering of an event type has no \<^verbatim>\<open>.\<close>, so the match fails for
  every event type, and \<^verbatim>\<open>formatEventName\<close> returns the prefix followed by
  \<^verbatim>\<open>event\<close>. Whenever \<^verbatim>\<open>EventFactoryFilter\<close> invokes a slot, it is the slot of that
  name.
\<close>

theorem formatEventName_is_prefix_event:
  "(\<forall>s m. regex_match s = Some m \<longrightarrow> CHR ''.'' \<in> set s \<and> (\<exists>c \<in> set s. is_upper c))
   \<and> CHR ''.'' \<notin> set (QString_number eventType)
   \<and> regex_match (QString_number eventType) = None
   \<and> formatEventName eventType prefix = prefix @ ''event''
   \<and> snd (EventFactoryFilter_eventFilter tk self obj event) =
       (if fst (EventFactoryFilter_eventFilter tk self obj event)
        then [InvokeMethod (forwardEventsTo self) (eventNamePrefix self @ ''event'')
                (qobject_cast tk ''QWidget'' obj) event]
        else [])"
  using regex_match_needs
  by (simp add: QString_number_no_dot regex_never_matches formatEventName_eq
      EventFactoryFilter_eventFilter_eq)

theorem formatEventName_is_prefix_event_witness:
  "regex_match ''QEvent.MouseButtonPress'' = Some (''M'', ''ouse'', ''Press'')
   \<and> CHR ''.'' \<in> set ''QEvent.MouseButtonPress''
   \<and> QString_number 5 = ''5''
   \<and> formatEventName 5 ''ef_'' = ''ef_event''
   \<and> snd (EventFactoryFilter_eventFilter tk_example factory_example 2 move_example) =
       [InvokeMethod 7 ''ef_event'' (Some 2) move_example]"
proof -
  have r: "regex_match ''QEvent.MouseButtonPress'' = Some (''M'', ''ouse'', ''Press'')"
    by code_simp
  have n: "QString_number 5 = ''5''"
    by code_simp
  have d: "declares_slot tk_example 7 ''ef_event''"
    by (simp add: declares_slot_def tk_example_def)
  have f: "fst (EventFactoryFilter_eventFilter tk_example factory_example 2 move_example)"
    by (simp add: EventFactoryFilter_eventFilter_eq formatEventName_eq factory_example_def
        EventFactoryFilter_def d)
  have q: "qobject_cast tk_example ''QWidget'' 2 = Some 2"
    by (simp add: qobject_cast_def tk_example_def)
  have c: "forwardEventsTo factory_example = 7" "eventNamePrefix factory_example = ''ef_''"
    by (simp_all add: factory_example_def EventFactoryFilter_def)
  from formatEventName_is_prefix_event
         [of 5 "''ef_''" tk_example factory_example 2 move_example]
  have "CHR ''.'' \<in> set ''QEvent.MouseButtonPress''"
    and "formatEventName 5 ''ef_'' = ''ef_event''"
    and "snd (EventFactoryFilter_eventFilter tk_example factory_example 2 move_example) =
           [InvokeMethod 7 ''ef_event'' (Some 2) move_example]"
    using r f by (simp_all add: q c)
  with r n show ?thesis by simp
qed

text \<open>
  C7. \<^verbatim>\<open>EventFactoryFilter::eventFilter\<close> returns true exactly when the forward target
  declares a slot named as \<^verbatim>\<open>formatEventName\<close> says, taking
  \<^verbatim>\<open>(QWidget*, QEvent*)\<close>. Then it invokes that slot on the target with the watched
  object (cast to a widget) and the event, and makes no other call; otherwise it makes no
  call and returns false.
\<close>

theorem factory_filter_consumes_iff_slot:
  "fst (EventFactoryFilter_eventFilter tk self obj event) =
     declares_slot tk (forwardEventsTo self)
       (formatEventName (etype event) (eventNamePrefix self))
   \<and> snd (EventFactoryFilter_eventFilter tk self obj event) =
       (if declares_slot tk (forwardEventsTo self)
             (formatEventName (etype event) (eventNamePrefix self))
        then [InvokeMethod (forwardEventsTo self)
                (formatEventName (etype event) (eventNamePrefix self))
                (qobject_cast tk ''QWidget'' obj) event]
        else [])"
  by (simp add: EventFactoryFilter_eventFilter_eq)

theorem factory_filter_consumes_iff_slot_witness:
  "EventFactoryFilter_eventFilter tk_example factory_example 2 move_example =
     (True, [InvokeMethod 7 ''ef_event'' (Some 2) move_example])
   \<and> EventFactoryFilter_eventFilter tk_example (EventFactoryFilter 6 None ''ef_'') 2 move_example =
     (False, [])"
proof -
  have f: "formatEventName (etype move_example) ''ef_'' = ''ef_event''"
    by (simp add: formatEventName_eq)
  have d: "declares_slot tk_example 7 ''ef_event''" "\<not> declares_slot tk_example 6 ''ef_event''"
    by (simp_all add: declares_slot_def tk_example_def)
  have q: "qobject_cast tk_example ''QWidget'' 2 = Some 2"
    by (simp add: qobject_cast_def tk_example_def)
  show ?thesis
    using factory_filter_consumes_iff_slot [of tk_example factory_example 2 move_example]
      factory_filter_consumes_iff_slot
        [of tk_example "EventFactoryFilter 6 None ''ef_''" 2 move_example]
    by (simp add: factory_example_def EventFactoryFilter_def f d q prod_eq_iff)
qed

subsection \<open>The steps of \<^verbatim>\<open>track\<close>\<close>

lemma releaseMouseForWidgets_eq:
  "releaseMouseForWidgets ws w = w\<lparr>calls := calls w @ map ReleaseMouse ws\<rparr>"
  by (induction ws arbitrary: w) (simp_all add: emit_def)

lemma track_leave_loop_eq:
  "track_leave_loop ps w =
     w\<lparr>calls := calls w @ map leave_event (filter (\<lambda>x. x \<notin> set (mouseOver w)) ps)\<rparr>"
  by (induction ps arbitrary: w) (simp_all add: emit_def sendLeaveEvent_def leave_event_def)

lemma track_enter_loop_eq:
  "track_enter_loop ms w =
     w\<lparr>calls := calls w @ map enter_event (filter (\<lambda>x. x \<notin> set (prevMouseOver w)) ms)\<rparr>"
  by (induction ms arbitrary: w) (simp_all add: emit_def sendEnterEvent_def enter_event_def)

lemma updateWidgetsUnderCursor_eq:
  "updateWidgetsUnderCursor tk w =
     w\<lparr>widgets := findChildren tk (parent w),
       mouseOver := under_cursor tk (parent w),
       calls := calls w @ [WidgetAt (cursor_pos tk)]\<rparr>"
  by (simp add: updateWidgetsUnderCursor_def getChildWidgets_def emit_def under_cursor_def
      split: option.splits)

lemma shouldCaptureMouse_iff:
  "shouldCaptureMouse tk t = (\<not> yields_to_active_window tk t)"
  by (auto simp add: shouldCaptureMouse_def widgetConditions_def yields_to_active_window_def)

lemma grab_target_eq:
  "grab_target tk =
     (case widgetAt tk (cursor_pos tk) of
        None \<Rightarrow> activeWindow tk
      | Some t \<Rightarrow> if shouldCaptureMouse tk t then Some t else activeWindow tk)"
  by (simp add: grab_target_def shouldCaptureMouse_iff split: option.splits)

lemma handleMouseGrab_eq:
  "handleMouseGrab tk w =
     (case grab_target tk of
        None \<Rightarrow> (Inl NullPointer, w\<lparr>calls := calls w @ [WidgetAt (cursor_pos tk)]\<rparr>)
      | Some g \<Rightarrow>
          (Inr (), w\<lparr>calls := calls w @ [WidgetAt (cursor_pos tk), GrabMouse g]\<rparr>))"
  by (simp add: handleMouseGrab_def grabMouse_def emit_def grab_target_eq Let_def
      split: option.splits)

lemma filterViewportWidgets_loop_frame:
  "calls (filterViewportWidgets_loop tk ws w) = calls w
   \<and> mouseOver (filterViewportWidgets_loop tk ws w) = mouseOver w
   \<and> prevMouseOver (filterViewportWidgets_loop tk ws w) = prevMouseOver w
   \<and> parent (filterViewportWidgets_loop tk ws w) = parent w
   \<and> widgets (filterViewportWidgets_loop tk ws w) = widgets w"
  by (induction ws arbitrary: w)
     (simp_all add: handleViewportWidget_def qobject_cast_def)

lemma filterViewportWidgets_loop_handlers:
  "mouseMoveEvent (filterViewportWidgets_loop tk ws w) =
     (\<lambda>a. if a \<in> set ws \<and> inherits tk a ''QAbstractScrollArea'' \<and> a \<notin> filteredWidgets w
          then ignoring (mouseMoveEvent w a) else mouseMoveEvent w a)
   \<and> filteredWidgets (filterViewportWidgets_loop tk ws w) =
       filteredWidgets w \<union> {a \<in> set ws. inherits tk a ''QAbstractScrollArea''}"
proof (induction ws arbitrary: w)
  case Nil
  show ?case by simp
next
  case (Cons x ws)
  show ?case
    by (auto simp add: Cons.IH handleViewportWidget_def qobject_cast_def ignoring_def fun_eq_iff)
qed

text \<open>The state in which \<^verbatim>\<open>track\<close> reaches the grab, with the hit test of the grab made.\<close>

lemma track_stops:
  assumes "grab_target tk = None"
  shows "track tk w =
           (Inl NullPointer,
            w\<lparr>widgets := findChildren tk (parent w),
              mouseOver := under_cursor tk (parent w),
              calls := calls w @ track_calls tk w\<rparr>)"
  using assms
  by (simp add: track_def Let_def handleMouseGrab_eq track_enter_loop_eq track_leave_loop_eq
      updateWidgetsUnderCursor_eq releaseMouseForWidgets_eq track_calls_def)

lemma track_completes:
  assumes "grab_target tk = Some g"
  shows "track tk w =
           (Inr (),
            filterViewportWidgets tk
              (w\<lparr>widgets := findChildren tk (parent w),
                 mouseOver := under_cursor tk (parent w),
                 calls := calls w @ track_calls tk w,
                 prevMouseOver := under_cursor tk (parent w)\<rparr>))"
  using assms
  by (simp add: track_def Let_def handleMouseGrab_eq track_enter_loop_eq track_leave_loop_eq
      updateWidgetsUnderCursor_eq releaseMouseForWidgets_eq track_calls_def)

lemma track_frame:
  "fst (track tk w) = (if grab_target tk = None then Inl NullPointer else Inr ())
   \<and> calls (snd (track tk w)) = calls w @ track_calls tk w
   \<and> mouseOver (snd (track tk w)) = under_cursor tk (parent w)
   \<and> prevMouseOver (snd (track tk w)) =
       (if grab_target tk = None then prevMouseOver w else under_cursor tk (parent w))
   \<and> parent (snd (track tk w)) = parent w
   \<and> widgets (snd (track tk w)) = findChildren tk (parent w)"
proof (cases "grab_target tk")
  case None
  then show ?thesis by (simp add: track_stops)
next
  case (Some g)
  then show ?thesis
    by (simp add: track_completes filterViewportWidgets_def filterViewportWidgets_loop_frame)
qed

lemma track_handlers:
  "mouseMoveEvent (snd (track tk w)) =
     (\<lambda>a. if grab_target tk \<noteq> None \<and> unfiltered_scroll_area tk w a
          then ignoring (mouseMoveEvent w a) else mouseMoveEvent w a)
   \<and> filteredWidgets (snd (track tk w)) =
       (if grab_target tk = None then filteredWidgets w
        else filteredWidgets w
             \<union> {a \<in> set (findChildren tk (parent w)). inherits tk a ''QAbstractScrollArea''})"
proof (cases "grab_target tk")
  case None
  then show ?thesis by (simp add: track_stops)
next
  case (Some g)
  then show ?thesis
    by (simp add: track_completes filterViewportWidgets_def filterViewportWidgets_loop_handlers
        unfiltered_scroll_area_def cong: if_cong)
qed

lemma new_calls_track: "new_calls w (snd (track tk w)) = track_calls tk w"
  by (simp add: new_calls_def track_frame)

lemma eventFilter_MouseMove:
  "etype event = MouseMove \<Longrightarrow>
     snd (MouseTracking_eventFilter tk obj event w) = snd (track tk w)"
  by (simp add: MouseTracking_eventFilter_def split: prod.splits sum.splits)

lemma eventFilter_result:
  "fst (MouseTracking_eventFilter tk obj event w) =
     (if etype event = MouseMove \<and> grab_target tk = None then Inl NullPointer
      else Inr (QObject_eventFilter obj event))"
proof (cases "etype event = MouseMove")
  case True
  then show ?thesis
    using track_frame [of tk w]
    by (cases "track tk w") (auto simp add: MouseTracking_eventFilter_def split: sum.splits)
next
  case False
  then show ?thesis
    by (simp add: MouseTracking_eventFilter_def Let_def split: option.splits)
qed

lemma filter_is_SendEvent_track:
  "filter is_SendEvent (track_calls tk w) =
     map leave_event (filter (\<lambda>x. x \<notin> set (under_cursor tk (parent w))) (prevMouseOver w))
     @ map enter_event (filter (\<lambda>x. x \<notin> set (prevMouseOver w)) (under_cursor tk (parent w)))"
  by (simp add: track_calls_def filter_map comp_def leave_event_def enter_event_def
      split: option.splits)

lemma SendEvent_in_track_calls:
  "SendEvent x e \<in> set (track_calls tk w) \<Longrightarrow>
     (x \<in> set (prevMouseOver w) \<and> x \<notin> set (under_cursor tk (parent w)))
     \<or> (x \<in> set (under_cursor tk (parent w)) \<and> x \<notin> set (prevMouseOver w))"
  by (auto simp add: track_calls_def leave_event_def enter_event_def split: option.splits)

lemma filter_is_GrabMouse_track:
  "filter is_GrabMouse (track_calls tk w) =
     (case grab_target tk of None \<Rightarrow> [] | Some g \<Rightarrow> [GrabMouse g])"
  by (simp add: track_calls_def filter_map comp_def leave_event_def enter_event_def
      split: option.splits)

lemma list_all_track_calls: "list_all is_toolkit_primitive (track_calls tk w)"
  by (auto simp add: track_calls_def list_all_iff leave_event_def enter_event_def
      split: option.splits)

lemma eventFilter_tracking_fields:
  "parent (snd (MouseTracking_eventFilter tk obj event w)) = parent w
   \<and> mouseOver (snd (MouseTracking_eventFilter tk obj event w)) =
       (if etype event = MouseMove then under_cursor tk (parent w) else mouseOver w)"
proof (cases "etype event = MouseMove")
  case True
  then show ?thesis by (simp add: eventFilter_MouseMove track_frame)
next
  case False
  then show ?thesis
    by (simp add: MouseTracking_eventFilter_def Let_def emit_def sendReleaseEvent_def
        split: option.splits)
qed

lemma run_Cons:
  "run ((tk, obj, event) # rest) w =
     (if etype event = MouseMove \<and> grab_target tk = None
      then snd (MouseTracking_eventFilter tk obj event w)
      else run rest (snd (MouseTracking_eventFilter tk obj event w)))"
  using eventFilter_result [of tk obj event w]
  by (cases "MouseTracking_eventFilter tk obj event w") (auto split: sum.splits)

lemma run_tracking_fields:
  "parent (run evs w) = parent w
   \<and> mouseOver (run evs w) =
       (case last_move evs of None \<Rightarrow> mouseOver w | Some tk \<Rightarrow> under_cursor tk (parent w))"
proof (induction evs arbitrary: w)
  case Nil
  show ?case by simp
next
  case (Cons a evs)
  obtain tk obj event where a: "a = (tk, obj, event)" by (cases a)
  show ?case
    unfolding a run_Cons
    by (simp add: Cons.IH eventFilter_tracking_fields split: option.splits)
qed

lemma length_under_cursor: "length (under_cursor tk p) \<le> Suc 0"
  by (simp add: under_cursor_def split: option.splits)

text \<open>The mouse moves of the small window.\<close>

lemma example_facts:
  "etype move_example = MouseMove"
  "under_cursor tk_example 5 = [2]"
  "under_cursor tk_scroll 5 = [3]"
  "under_cursor tk_no_window 5 = []"
  "grab_target tk_example = Some 5"
  "grab_target tk_scroll = Some 3"
  "grab_target tk_no_window = None"
  "cursor_pos tk_example = (10, 10)"
  "cursor_pos tk_no_window = (10, 10)"
  "parent w_initial = 5"
  "prevMouseOver w_initial = []"
  "mouseOver w_initial = []"
  "filteredWidgets w_initial = {}"
  by (simp_all add: move_example_def under_cursor_def grab_target_def
      yields_to_active_window_def tk_example_def tk_scroll_def
      tk_no_window_def w_initial_def)

lemma w_example_facts:
  "parent w_example = 5"
  "prevMouseOver w_example = [3]"
  "mouseOver w_example = [3]"
  "filteredWidgets w_example = {3}"
  "mouseMoveEvent w_example 3 = ignoring (\<lambda>event. event)"
  "mouseMoveEvent w_example 2 = (\<lambda>event. event)"
proof -
  have e: "w_example = snd (track tk_scroll w_initial)"
    unfolding w_example_def using example_facts(1) by (rule eventFilter_MouseMove)
  have u: "unfiltered_scroll_area tk_scroll w_initial 3"
    "\<not> unfiltered_scroll_area tk_scroll w_initial 2"
    by (simp_all add: unfiltered_scroll_area_def tk_scroll_def tk_example_def w_initial_def)
  have h: "mouseMoveEvent w_initial = (\<lambda>x event. event)"
    by (simp add: w_initial_def)
  have s: "{a \<in> set (findChildren tk_scroll 5). inherits tk_scroll a ''QAbstractScrollArea''}
             = {3}"
    by (auto simp add: tk_scroll_def tk_example_def)
  show "parent w_example = 5" "prevMouseOver w_example = [3]" "mouseOver w_example = [3]"
    by (simp_all add: e track_frame example_facts)
  show "filteredWidgets w_example = {3}"
    by (simp add: e track_handlers example_facts s)
  show "mouseMoveEvent w_example 3 = ignoring (\<lambda>event. event)"
    "mouseMoveEvent w_example 2 = (\<lambda>event. event)"
    by (simp_all add: e track_handlers example_facts u h)
qed

subsection \<open>Mouse moves\<close>

text \<open>
  C1. On a mouse move the set of widgets under the cursor is recomputed; the events
  sent with \<^verbatim>\<open>sendEvent\<close> are then a Leave event to each widget of the previous set
  that is not in the new one, followed by an Enter event to each widget of the new set
  that is not in the previous one, and nothing else. A widget in both sets is sent no
  event.
\<close>

theorem mouse_move_sends_leave_and_enter:
  assumes "etype event = MouseMove"
  shows "mouseOver (snd (MouseTracking_eventFilter tk obj event w)) = under_cursor tk (parent w)
    \<and> filter is_SendEvent (new_calls w (snd (MouseTracking_eventFilter tk obj event w))) =
        map leave_event
          (filter (\<lambda>x. x \<notin> set (under_cursor tk (parent w))) (prevMouseOver w))
        @ map enter_event
          (filter (\<lambda>x. x \<notin> set (prevMouseOver w)) (under_cursor tk (parent w)))
    \<and> (\<forall>x e. x \<in> set (prevMouseOver w) \<and> x \<in> set (under_cursor tk (parent w)) \<longrightarrow>
          SendEvent x e \<notin> set (new_calls w (snd (MouseTracking_eventFilter tk obj event w))))"
proof -
  have t: "snd (MouseTracking_eventFilter tk obj event w) = snd (track tk w)"
    using assms by (rule eventFilter_MouseMove)
  have "\<forall>x e. x \<in> set (prevMouseOver w) \<and> x \<in> set (under_cursor tk (parent w)) \<longrightarrow>
          SendEvent x e \<notin> set (track_calls tk w)"
    using SendEvent_in_track_calls by blast
  then show ?thesis
    by (simp add: t new_calls_track track_frame filter_is_SendEvent_track)
qed

theorem mouse_move_sends_leave_and_enter_witness:
  "etype move_example = MouseMove
   \<and> mouseOver (snd (MouseTracking_eventFilter tk_example 5 move_example w_example)) = [2]
   \<and> filter is_SendEvent
       (new_calls w_example (snd (MouseTracking_eventFilter tk_example 5 move_example w_example)))
       = [SendEvent 3 (QEvent Leave True), SendEvent 2 (QEvent Enter True)]"
  using mouse_move_sends_leave_and_enter [OF example_facts(1), of tk_example 5 w_example]
  by (simp add: example_facts w_example_facts leave_event_def enter_event_def)

text \<open>
  The grab of a mouse move: one \<^verbatim>\<open>grabMouse\<close> call, on the top widget under the cursor
  or, when that widget yields or there is none, on the active window, provided the
  pointer called through is not null; no call otherwise.
\<close>

lemma grab_calls_of_mouse_move:
  assumes "etype event = MouseMove"
  shows "filter is_GrabMouse (new_calls w (snd (MouseTracking_eventFilter tk obj event w)))
           = (case grab_target tk of None \<Rightarrow> [] | Some g \<Rightarrow> [GrabMouse g])"
  using assms by (simp add: eventFilter_MouseMove new_calls_track filter_is_GrabMouse_track)

text \<open>
  C2, where the code departs from it. The cursor is outside every widget and the
  application has no active window. The claim has the active window grab the mouse in
  one \<^verbatim>\<open>grabMouse\<close> call; the code calls through the null pointer
  \<^verbatim>\<open>QApplication::activeWindow()\<close> returned, and the mouse move ends there with no
  \<^verbatim>\<open>grabMouse\<close> call made.
\<close>

theorem mouse_move_without_active_window_grabs_nothing:
  "etype move_example = MouseMove
   \<and> widgetAt tk_no_window (cursor_pos tk_no_window) = None
   \<and> activeWindow tk_no_window = None
   \<and> fst (MouseTracking_eventFilter tk_no_window 5 move_example w_initial) = Inl NullPointer
   \<and> filter is_GrabMouse
       (new_calls w_initial (snd (MouseTracking_eventFilter tk_no_window 5 move_example w_initial)))
       = []"
proof -
  have "widgetAt tk_no_window (cursor_pos tk_no_window) = None"
    and "activeWindow tk_no_window = None"
    by (simp_all add: tk_no_window_def)
  moreover have
    "fst (MouseTracking_eventFilter tk_no_window 5 move_example w_initial) = Inl NullPointer"
    by (simp add: eventFilter_result example_facts)
  moreover have "filter is_GrabMouse
       (new_calls w_initial (snd (MouseTracking_eventFilter tk_no_window 5 move_example w_initial)))
       = []"
    by (simp add: grab_calls_of_mouse_move example_facts)
  ultimately show ?thesis
    using example_facts(1) by simp
qed

text \<open>
  C6, where the code departs from it. The tracker has the scroll area 3 under the
  cursor; the cursor then leaves every widget while the application has no active
  window. The code releases the mouse, recomputes the set and sends the Leave event in
  the order the claim gives, makes the hit test of the grab, and ends on the null
  pointer: no \<^verbatim>\<open>grabMouse\<close> call follows and the previous set is not replaced by the
  new one.
\<close>

theorem mouse_move_without_active_window_stops_early:
  "fst (MouseTracking_eventFilter tk_no_window 5 move_example w_example) = Inl NullPointer
   \<and> new_calls w_example (snd (MouseTracking_eventFilter tk_no_window 5 move_example w_example))
       = [ReleaseMouse 3, WidgetAt (10, 10), SendEvent 3 (QEvent Leave True), WidgetAt (10, 10)]
   \<and> mouseOver (snd (MouseTracking_eventFilter tk_no_window 5 move_example w_example)) = []
   \<and> prevMouseOver (snd (MouseTracking_eventFilter tk_no_window 5 move_example w_example)) = [3]"
proof -
  have e: "snd (MouseTracking_eventFilter tk_no_window 5 move_example w_example)
             = snd (track tk_no_window w_example)"
    using example_facts(1) by (rule eventFilter_MouseMove)
  have c: "track_calls tk_no_window w_example =
             [ReleaseMouse 3, WidgetAt (10, 10), SendEvent 3 (QEvent Leave True),
              WidgetAt (10, 10)]"
    by (simp add: track_calls_def example_facts w_example_facts leave_event_def)
  show ?thesis
    by (simp add: eventFilter_result e new_calls_track track_frame c example_facts
        w_example_facts)
qed

subsection \<open>Releases and other events\<close>

text \<open>
  C3. On a \<^verbatim>\<open>MouseButtonRelease\<close> the filter posts one synthetic \<^verbatim>\<open>MouseButtonRelease\<close>
  with the button of the event and the cursor position to the widget under the cursor
  when there is such a widget, it is a \<^verbatim>\<open>QAbstractButton\<close> and it is not down. In every
  other case it posts nothing: an event is posted if and only if that holds.
\<close>

theorem release_is_posted_iff:
  assumes "etype event = MouseButtonRelease"
  shows "new_calls w (snd (MouseTracking_eventFilter tk obj event w)) =
           WidgetAt (cursor_pos tk) #
             (case release_target tk of
                Some t \<Rightarrow> [PostEvent t (release_event tk event)]
              | None \<Rightarrow> [])
    \<and> ((\<exists>c \<in> set (new_calls w (snd (MouseTracking_eventFilter tk obj event w))). is_PostEvent c)
         \<longleftrightarrow> release_target tk \<noteq> None)"
  using assms
  by (auto simp add: MouseTracking_eventFilter_def MouseMove_def MouseButtonRelease_def Let_def
      new_calls_def emit_def sendReleaseEvent_def release_target_def release_event_def
      qobject_cast_def split: option.splits)

theorem release_is_posted_iff_witness:
  "etype release_example = MouseButtonRelease
   \<and> new_calls w_example (snd (MouseTracking_eventFilter tk_example 5 release_example w_example)) =
       [WidgetAt (10, 10),
        PostEvent 2 (QMouseEvent MouseButtonRelease (10, 10) 2 2 NoModifier True)]
   \<and> new_calls w_example (snd (MouseTracking_eventFilter tk_pressed 5 release_example w_example)) =
       [WidgetAt (10, 10)]"
proof -
  have h: "etype release_example = MouseButtonRelease" by (simp add: release_example_def)
  have r: "release_target tk_example = Some 2" "release_target tk_pressed = None"
    by (simp_all add: release_target_def tk_pressed_def tk_example_def)
  have c: "cursor_pos tk_example = (10, 10)" "cursor_pos tk_pressed = (10, 10)"
    by (simp_all add: tk_pressed_def tk_example_def)
  have b: "button release_example = 2" by (simp add: release_example_def)
  show ?thesis
    using release_is_posted_iff [OF h, of w_example tk_example 5]
      release_is_posted_iff [OF h, of w_example tk_pressed 5] h
    by (simp add: r c b release_event_def)
qed

text \<open>
  C9. An event that is neither a \<^verbatim>\<open>MouseMove\<close> nor a \<^verbatim>\<open>MouseButtonRelease\<close> leaves
  everything as it was: no call is made, and no member of the tracker and no handler
  changes.
\<close>

theorem other_events_do_nothing:
  assumes "etype event \<noteq> MouseMove" and "etype event \<noteq> MouseButtonRelease"
  shows "snd (MouseTracking_eventFilter tk obj event w) = w
    \<and> MouseTracking_eventFilter tk obj event w = (Inr False, w)"
  using assms by (simp add: MouseTracking_eventFilter_def QObject_eventFilter_def)

theorem other_events_do_nothing_witness:
  "etype (QEvent Enter True) \<noteq> MouseMove \<and> etype (QEvent Enter True) \<noteq> MouseButtonRelease
   \<and> snd (MouseTracking_eventFilter tk_example 5 (QEvent Enter True) w_example) = w_example"
proof -
  have h1: "etype (QEvent Enter True) \<noteq> MouseMove" by (simp add: Enter_def MouseMove_def)
  have h2: "etype (QEvent Enter True) \<noteq> MouseButtonRelease"
    by (simp add: Enter_def MouseButtonRelease_def)
  show ?thesis
    using other_events_do_nothing [OF h1 h2, of tk_example 5 w_example] h1 h2 by simp
qed



subsection \<open>The widgets under the cursor\<close>

text \<open>
  C5. From its construction on, whatever events the tracker handles, its set of
  widgets under the cursor is empty until the first mouse move and afterwards holds what
  the latest mouse move found: the widget the hit test returned if that widget is a
  descendant of the tracked parent, and nothing otherwise. It never holds two widgets,
  and \<^verbatim>\<open>updateWidgetsUnderCursor\<close>, the one place that assigns it, assigns at most one.
\<close>

theorem at_most_one_widget_under_cursor:
  assumes "MouseTracking tk0 p handlers = Inr w0"
  shows "mouseOver (run evs w0) =
           (case last_move evs of None \<Rightarrow> [] | Some tk \<Rightarrow> under_cursor tk p)
    \<and> length (mouseOver (run evs w0)) \<le> 1
    \<and> mouseOver (updateWidgetsUnderCursor tk w) = under_cursor tk (parent w)
    \<and> length (under_cursor tk (parent w)) \<le> 1"
proof -
  have w0: "parent w0 = p" "mouseOver w0 = []"
    using assms by (auto simp add: MouseTracking_def split: if_splits)
  have m: "mouseOver (run evs w0) =
           (case last_move evs of None \<Rightarrow> [] | Some tk \<Rightarrow> under_cursor tk p)"
    by (simp add: run_tracking_fields w0 split: option.splits)
  have "length (mouseOver (run evs w0)) \<le> 1"
    by (simp add: m length_under_cursor split: option.splits)
  with m show ?thesis
    by (simp add: updateWidgetsUnderCursor_eq length_under_cursor)
qed

theorem at_most_one_widget_under_cursor_witness:
  "MouseTracking tk_example 5 (\<lambda>x event. event) = Inr w_initial
   \<and> mouseOver (run [(tk_example, 5, move_example), (tk_example, 5, release_example)] w_initial)
       = [2]
   \<and> mouseOver (updateWidgetsUnderCursor tk_example w_example) = [2]"
proof -
  have h: "MouseTracking tk_example 5 (\<lambda>x event. event) = Inr w_initial"
    by (simp add: MouseTracking_def tk_example_def w_initial_def)
  have l: "last_move [(tk_example, 5, move_example), (tk_example, 5, release_example)]
             = Some tk_example"
    by (simp add: example_facts release_example_def MouseMove_def MouseButtonRelease_def)
  show ?thesis
    using at_most_one_widget_under_cursor [OF h,
        of "[(tk_example, 5, move_example), (tk_example, 5, release_example)]"
           tk_example w_example] h
    by (simp add: example_facts w_example_facts l del: run.simps last_move.simps)
qed

subsection \<open>What the tracker changes outside itself\<close>

text \<open>
  C8, as the code has it. Take an event that is handled to the end: any event but a
  mouse move whose grab ends on a null pointer. Handling it changes a widget directly
  in one case: on a mouse move, every \<^verbatim>\<open>QAbstractScrollArea\<close> among the descendants of
  the tracked parent that is not yet in the filtered set is added to that set and gets
  its \<^verbatim>\<open>mouseMoveEvent\<close> handler replaced by one that calls the handler it had and then
  ignores the event. A widget wrapped now is in the filtered set afterwards, so whatever
  the toolkit answers later it is not wrapped again. No other handler changes and the
  filtered set changes on no other event; the calls made before are kept, and every
  call added is one of \<^verbatim>\<open>widgetAt\<close>, \<^verbatim>\<open>sendEvent\<close>, \<^verbatim>\<open>postEvent\<close>, \<^verbatim>\<open>grabMouse\<close>,
  \<^verbatim>\<open>releaseMouse\<close>, \<^verbatim>\<open>installEventFilter\<close>.
\<close>

theorem handlers_rewritten_for_scroll_areas_only:
  assumes "etype event = MouseMove \<longrightarrow> grab_target tk \<noteq> None"
  shows "mouseMoveEvent (snd (MouseTracking_eventFilter tk obj event w)) =
           (\<lambda>a. if etype event = MouseMove \<and> unfiltered_scroll_area tk w a
                then ignoring (mouseMoveEvent w a) else mouseMoveEvent w a)
    \<and> filteredWidgets (snd (MouseTracking_eventFilter tk obj event w)) =
        (if etype event = MouseMove
         then filteredWidgets w
              \<union> {a \<in> set (findChildren tk (parent w)). inherits tk a ''QAbstractScrollArea''}
         else filteredWidgets w)
    \<and> (\<forall>a tk'. etype event = MouseMove \<and> unfiltered_scroll_area tk w a \<longrightarrow>
          \<not> unfiltered_scroll_area tk' (snd (MouseTracking_eventFilter tk obj event w)) a)
    \<and> take (length (calls w)) (calls (snd (MouseTracking_eventFilter tk obj event w))) = calls w
    \<and> list_all is_toolkit_primitive
        (new_calls w (snd (MouseTracking_eventFilter tk obj event w)))"
proof (cases "etype event = MouseMove")
  case True
  with assms obtain y where g: "grab_target tk = Some y" by auto
  have e: "snd (MouseTracking_eventFilter tk obj event w) = snd (track tk w)"
    using True by (rule eventFilter_MouseMove)
  have "\<forall>a tk'. unfiltered_scroll_area tk w a \<longrightarrow> \<not> unfiltered_scroll_area tk' (snd (track tk w)) a"
    by (simp add: unfiltered_scroll_area_def track_handlers g)
  then show ?thesis
    using True g
    by (simp add: e track_handlers track_frame new_calls_track list_all_track_calls)
next
  case False
  then show ?thesis
    by (simp add: MouseTracking_eventFilter_def Let_def emit_def sendReleaseEvent_def
        new_calls_def split: option.splits)
qed

theorem handlers_rewritten_for_scroll_areas_only_witness:
  "(etype move_example = MouseMove \<and> grab_target tk_example \<noteq> None)
   \<and> mouseMoveEvent (snd (MouseTracking_eventFilter tk_example 5 move_example w_initial))
       3 move_example = ignore move_example
   \<and> mouseMoveEvent (snd (MouseTracking_eventFilter tk_example 5 move_example w_initial))
       2 move_example = move_example
   \<and> filteredWidgets (snd (MouseTracking_eventFilter tk_example 5 move_example w_initial)) = {3}
   \<and> mouseMoveEvent (snd (MouseTracking_eventFilter tk_example 5 move_example w_example)) 3
       = mouseMoveEvent w_example 3
   \<and> filteredWidgets (snd (MouseTracking_eventFilter tk_example 5 move_example w_example)) = {3}
   \<and> mouseMoveEvent (snd (MouseTracking_eventFilter tk_example 5 release_example w_initial))
       3 move_example = move_example"
proof -
  have h: "etype move_example = MouseMove \<longrightarrow> grab_target tk_example \<noteq> None"
    "etype release_example = MouseMove \<longrightarrow> grab_target tk_example \<noteq> None"
    by (simp_all add: example_facts)
  have r: "etype release_example \<noteq> MouseMove"
    by (simp add: release_example_def MouseMove_def MouseButtonRelease_def)
  have u: "unfiltered_scroll_area tk_example w_initial 3"
    "\<not> unfiltered_scroll_area tk_example w_initial 2"
    "\<not> unfiltered_scroll_area tk_example w_example 3"
    by (simp_all add: unfiltered_scroll_area_def tk_example_def example_facts w_example_facts)
  have m: "mouseMoveEvent w_initial = (\<lambda>x event. event)"
    by (simp add: w_initial_def)
  have s: "{a \<in> set (findChildren tk_example 5). inherits tk_example a ''QAbstractScrollArea''}
             = {3}"
    by (auto simp add: tk_example_def)
  show ?thesis
    using handlers_rewritten_for_scroll_areas_only [OF h(1), of 5 w_initial]
      handlers_rewritten_for_scroll_areas_only [OF h(1), of 5 w_example]
      handlers_rewritten_for_scroll_areas_only [OF h(2), of 5 w_initial]
    by (simp add: example_facts w_example_facts r u m s ignoring_def)
qed

text \<open>
  C8 as stated fails: the tracker is constructed on the small window and handles one
  mouse move; the handler of the scroll area 3 is then no longer the one it was. The
  event it used to leave accepted now comes back ignored.
\<close>

theorem handlers_untouched_counterexample:
  "mouseMoveEvent (snd (MouseTracking_eventFilter tk_example 5 move_example w_initial))
       3 move_example
     \<noteq> mouseMoveEvent w_initial 3 move_example"
proof -
  have u: "unfiltered_scroll_area tk_example w_initial 3"
    by (simp add: unfiltered_scroll_area_def tk_example_def w_initial_def)
  have m: "mouseMoveEvent w_initial 3 move_example = move_example"
    by (simp add: w_initial_def)
  have e: "snd (MouseTracking_eventFilter tk_example 5 move_example w_initial)
             = snd (track tk_example w_initial)"
    using example_facts(1) by (rule eventFilter_MouseMove)
  have t: "mouseMoveEvent (snd (track tk_example w_initial)) 3 move_example
             = ignore move_example"
    by (simp add: track_handlers u ignoring_def m example_facts)
  show ?thesis
    unfolding e t m by (simp add: move_example_def)
qed

end
